theory Spec2Isabelle
  imports Main
begin

section \<open>The schema document\<close>

text \<open>
  The schema is a parsed GraphQL SDL document. Only the parts of the AST that
  \<^verbatim>\<open>index.js\<close> reads are kept: a type reference (\<^verbatim>\<open>TypeNode\<close>) is a named type or
  a list or non-null wrapper around a type reference; a field definition has a name, an
  optional argument list and a type; a document is the list of its definitions, of which
  the visitor only looks at object-type definitions. A property the source tests for
  presence (\<^verbatim>\<open>node.fields || []\<close>, \<^verbatim>\<open>astValue.arguments && ...\<close>) is an
  \<open>option\<close>, with \<open>None\<close> for \<^verbatim>\<open>undefined\<close>.
  Strings are ASCII, as GraphQL names are.
\<close>

datatype typeNode = NamedType string | ListType typeNode | NonNullType typeNode

record inputValueDefinition =
  arg_name :: string
  arg_type :: typeNode

record fieldDefinition =
  field_name :: string
  field_arguments :: "inputValueDefinition list option"
  field_type :: typeNode

datatype definitionNode =
    ObjectTypeDefinition string "fieldDefinition list option"
  | OtherDefinition string

type_synonym documentNode = "definitionNode list"

datatype error = TypeError | TransportError | SchemaParseError | FormatterRejection


section \<open>getTypeName\<close>

text \<open>
  \<^verbatim>\<open>getTypeName(node, forQueryDefinition)\<close>. The two leading tests are taken only when
  \<open>forQueryDefinition\<close> holds; otherwise the wrappers are skipped. The final
  \<^verbatim>\<open>return ""\<close> of the source is for a node kind outside \<^verbatim>\<open>TypeNode\<close> and has no
  counterpart here.
\<close>

fun getTypeName :: "typeNode \<Rightarrow> bool \<Rightarrow> string" where
  "getTypeName (NonNullType t) forQueryDefinition =
     (if forQueryDefinition then getTypeName t forQueryDefinition @ ''!''
      else getTypeName t forQueryDefinition)"
| "getTypeName (ListType t) forQueryDefinition =
     (if forQueryDefinition then ''['' @ getTypeName t forQueryDefinition @ '']''
      else getTypeName t forQueryDefinition)"
| "getTypeName (NamedType n) forQueryDefinition = n"


section \<open>findOperationsAndTypes\<close>

record operation =
  kind :: string
  name :: string
  astValue :: fieldDefinition

type_synonym catalog = "string \<rightharpoonup> fieldDefinition list"

record schemaInfo =
  operations :: "operation list"
  types :: catalog

text \<open>
  The \<^verbatim>\<open>ObjectTypeDefinition\<close> callback of the visitor, on the two accumulators it
  closes over. \<^verbatim>\<open>node.fields.forEach\<close> on a root definition without a field array is a
  \<^verbatim>\<open>TypeError\<close>; for any other definition \<^verbatim>\<open>node.fields || []\<close> is stored.
\<close>

definition enterObjectTypeDefinition :: "string \<Rightarrow> fieldDefinition list option \<Rightarrow> schemaInfo \<Rightarrow> error + schemaInfo" where
  "enterObjectTypeDefinition nodeName nodeFields acc =
     (let isQueryOrMutation = (nodeName = ''Mutation'' \<or> nodeName = ''Query'') in
      if isQueryOrMutation then
        (let knd = (if nodeName = ''Mutation'' then ''mutation'' else ''query'') in
         case nodeFields of
           None \<Rightarrow> Inl TypeError
         | Some fs \<Rightarrow>
             Inr (acc\<lparr>operations := operations acc @
                    map (\<lambda>field. \<lparr>kind = knd, name = field_name field, astValue = field\<rparr>) fs\<rparr>))
      else
        Inr (acc\<lparr>types := (types acc)(nodeName \<mapsto> (case nodeFields of None \<Rightarrow> [] | Some fs \<Rightarrow> fs))\<rparr>))"

text \<open>The traversal: definitions in document order; an exception ends it.\<close>

fun visit :: "documentNode \<Rightarrow> schemaInfo \<Rightarrow> error + schemaInfo" where
  "visit [] acc = Inr acc"
| "visit (ObjectTypeDefinition nodeName nodeFields # rest) acc =
     (case enterObjectTypeDefinition nodeName nodeFields acc of
        Inl e \<Rightarrow> Inl e
      | Inr acc' \<Rightarrow> visit rest acc')"
| "visit (OtherDefinition k # rest) acc = visit rest acc"

definition findOperationsAndTypes :: "documentNode \<Rightarrow> error + schemaInfo" where
  "findOperationsAndTypes schema = visit schema \<lparr>operations = [], types = Map.empty\<rparr>"


section \<open>generateCodeForOperation\<close>

definition toUpperCase :: "char \<Rightarrow> char" where
  "toUpperCase ch =
     (case map_of (zip ''abcdefghijklmnopqrstuvwxyz'' ''ABCDEFGHIJKLMNOPQRSTUVWXYZ'') ch of
        Some u \<Rightarrow> u
      | None \<Rightarrow> ch)"

text \<open>\<^verbatim>\<open>input.charAt(0).toUpperCase() + input.slice(1)\<close>; the empty string stays empty.\<close>

fun upperFirst :: "string \<Rightarrow> string" where
  "upperFirst [] = []"
| "upperFirst (ch # rest) = toUpperCase ch # rest"

text \<open>\<^verbatim>\<open>Array.prototype.join\<close>.\<close>

fun join :: "string \<Rightarrow> string list \<Rightarrow> string" where
  "join sep [] = []"
| "join sep [x] = x"
| "join sep (x # y # ys) = x @ sep @ join sep (y # ys)"

text \<open>
  The inner function \<^verbatim>\<open>selectFields(types, field, code, depth)\<close>. It pushes onto the
  shared array \<open>code\<close>, which is passed in and returned here; \<open>maxFieldsSelectionDepth\<close>
  is the variable of the enclosing function it closes over.
\<close>

function selectFields :: "catalog \<Rightarrow> nat \<Rightarrow> fieldDefinition \<Rightarrow> string list \<Rightarrow> nat \<Rightarrow> string list" where
  "selectFields tys maxFieldsSelectionDepth field code depth =
     (let fieldType = getTypeName (field_type field) False;
          fieldName = field_name field
      in case tys fieldType of
           None \<Rightarrow> code @ [fieldName]
         | Some items \<Rightarrow>
             (let code1 = code @ [fieldName] in
              if depth < maxFieldsSelectionDepth then
                fold (\<lambda>item c. selectFields tys maxFieldsSelectionDepth item c (depth + 1))
                     items (code1 @ [''{'']) @ [''}'']
              else code1))"
  by pat_completeness auto
termination
  by (relation "measure (\<lambda>(tys, m, field, code, depth). m - depth)") auto

definition hasArguments :: "operation \<Rightarrow> bool" where
  "hasArguments operation =
     (case field_arguments (astValue operation) of None \<Rightarrow> False | Some as \<Rightarrow> length as > 0)"

definition argumentsOf :: "operation \<Rightarrow> inputValueDefinition list" where
  "argumentsOf operation =
     (case field_arguments (astValue operation) of None \<Rightarrow> [] | Some as \<Rightarrow> as)"

definition variableDeclarations :: "inputValueDefinition list \<Rightarrow> string list" where
  "variableDeclarations as = map (\<lambda>arg. ''$'' @ arg_name arg @ '': '' @ getTypeName (arg_type arg) True) as"

definition argumentBindings :: "inputValueDefinition list \<Rightarrow> string list" where
  "argumentBindings as = map (\<lambda>arg. arg_name arg @ '': $'' @ arg_name arg) as"

text \<open>The array \<open>code\<close> as it stands when it is joined, push by push.\<close>

definition codeLines :: "operation \<Rightarrow> catalog \<Rightarrow> nat \<Rightarrow> string list" where
  \<open>codeLines operation tys maxFieldsSelectionDepth =
     (let code0 = [''import gql from "graphql-tag";'', '''', ''export default gql`'',
                   kind operation @ '' '' @ upperFirst (name operation)];
          code1 = (if hasArguments operation
                   then code0 @ [''('', join '','' (variableDeclarations (argumentsOf operation)), '')'']
                   else code0);
          code2 = code1 @ [''{'', name operation];
          code3 = (if hasArguments operation
                   then code2 @ [''('', join '','' (argumentBindings (argumentsOf operation)), '')'']
                   else code2);
          returnType = getTypeName (field_type (astValue operation)) False;
          code4 = (case tys returnType of
                     None \<Rightarrow> code3
                   | Some items \<Rightarrow>
                       fold (\<lambda>field c. selectFields tys maxFieldsSelectionDepth field c 0)
                            items (code3 @ [''{'']) @ [''}''])
      in code4 @ [''}'', ''`'', ''''])\<close>

text \<open>
  \<^verbatim>\<open>prettier.format\<close> is an external library: it is a parameter, and may throw.
\<close>

definition generateCodeForOperation :: "(string \<Rightarrow> error + string) \<Rightarrow> operation \<Rightarrow> catalog \<Rightarrow> nat \<Rightarrow> error + string" where
  "generateCodeForOperation format operation tys maxFieldsSelectionDepth =
     format (join [CHR 0x0A] (codeLines operation tys maxFieldsSelectionDepth))"

definition defaultMaxFieldsSelectionDepth :: nat where
  "defaultMaxFieldsSelectionDepth = 2"


section \<open>The outside world\<close>

text \<open>
  What a run can touch: the files of the working directory (name to content), what has
  been written to standard output, chunk by chunk, and the HTTP requests sent. The
  libraries are parameters of a run: the text returned by \<^verbatim>\<open>getIntrospectionQuery()\<close>;
  the endpoint together with \<^verbatim>\<open>response.json\<close>, \<^verbatim>\<open>buildClientSchema\<close>,
  \<^verbatim>\<open>printSchema\<close> and \<^verbatim>\<open>parseSchema\<close>, as one function from the request to the parsed
  document or an exception; and \<^verbatim>\<open>prettier.format\<close>.
\<close>

record httpRequest =
  req_url :: string
  req_method :: string
  req_headers :: "(string \<times> string) list"
  req_body :: "(string \<times> string) list"

record world =
  files :: "string \<rightharpoonup> string"
  stdout :: "string list"
  requests :: "httpRequest list"

record env =
  introspectionQuery :: string
  endpoint :: "httpRequest \<Rightarrow> error + documentNode"
  format :: "string \<Rightarrow> error + string"

definition existsSync :: "world \<Rightarrow> string \<Rightarrow> bool" where
  "existsSync w fileName = (files w fileName \<noteq> None)"

definition writeFileSync :: "string \<Rightarrow> string \<Rightarrow> world \<Rightarrow> world" where
  "writeFileSync fileName content w = w\<lparr>files := (files w)(fileName \<mapsto> content)\<rparr>"

definition stdout_write :: "string \<Rightarrow> world \<Rightarrow> world" where
  "stdout_write s w = w\<lparr>stdout := stdout w @ [s]\<rparr>"

definition console_log :: "string \<Rightarrow> world \<Rightarrow> world" where
  "console_log s w = stdout_write (s @ [CHR 0x0A]) w"


section \<open>fetchSchemaWithIntrospection\<close>

text \<open>
  The request is built from literals and the introspection query; the body is the object
  handed to \<^verbatim>\<open>JSON.stringify\<close>. The parameter \<open>url\<close> is not read.
\<close>

definition fetchSchemaWithIntrospection :: "env \<Rightarrow> string \<Rightarrow> world \<Rightarrow> (error + documentNode) \<times> world" where
  "fetchSchemaWithIntrospection e url w =
     (let request = \<lparr>req_url = ''http://localhost:25202/'',
                      req_method = ''POST'',
                      req_headers = [(''Content-Type'', ''application/json'')],
                      req_body = [(''query'', introspectionQuery e)]\<rparr>
      in (endpoint e request, w\<lparr>requests := requests w @ [request]\<rparr>))"


section \<open>The command handlers\<close>

record argv =
  argv_url :: string
  argv_type :: string
  argv_operations :: "string list"
  argv_write :: bool

record node =
  node_name :: string
  fileName :: string
  node_code :: string

text \<open>
  \<^verbatim>\<open>.map((operation) => ({name, fileName, code: generateCodeForOperation(operation, types)}))\<close>:
  the depth is left to its default; the first exception of the formatter ends the map.
\<close>

fun buildNodes :: "env \<Rightarrow> catalog \<Rightarrow> operation list \<Rightarrow> error + node list" where
  "buildNodes e tys [] = Inr []"
| "buildNodes e tys (operation # rest) =
     (let nm = upperFirst (name operation) @ upperFirst (kind operation) in
      case generateCodeForOperation (format e) operation tys defaultMaxFieldsSelectionDepth of
        Inl err \<Rightarrow> Inl err
      | Inr c \<Rightarrow>
          (case buildNodes e tys rest of
             Inl err \<Rightarrow> Inl err
           | Inr ns \<Rightarrow> Inr (\<lparr>node_name = nm, fileName = nm @ ''.ts'', node_code = c\<rparr> # ns)))"

text \<open>The \<^verbatim>\<open>if (argv.write) ... else ...\<close> at the end of the handler.\<close>

definition emitNodes :: "bool \<Rightarrow> node list \<Rightarrow> world \<Rightarrow> world" where
  "emitNodes write nodes w =
     (if write then
        (let isSafeToWrite = list_all (\<lambda>n. \<not> existsSync w (fileName n)) nodes in
         if isSafeToWrite then
           fold (\<lambda>n w'. console_log (''Written to '' @ fileName n)
                          (writeFileSync (fileName n) (node_code n) w')) nodes w
         else w)
      else
        fold (\<lambda>n w'. stdout_write (node_code n) (console_log (''// '' @ fileName n) w')) nodes w)"

text \<open>
  The handler of \<^verbatim>\<open>generate <url> <type> [operations...]\<close>. The result is the
  exception that ended the run, if any, and the world as the run left it.
\<close>

definition generateHandler :: "env \<Rightarrow> argv \<Rightarrow> world \<Rightarrow> error option \<times> world" where
  "generateHandler e args w =
     (if length (argv_operations args) = 0 then (None, w)
      else
        (case fetchSchemaWithIntrospection e (argv_url args) w of
           (Inl err, w1) \<Rightarrow> (Some err, w1)
         | (Inr schema, w1) \<Rightarrow>
             (case findOperationsAndTypes schema of
                Inl err \<Rightarrow> (Some err, w1)
              | Inr info \<Rightarrow>
                  (case buildNodes e (types info)
                          (filter (\<lambda>operation. kind operation = argv_type args \<and>
                                     name operation \<in> set (argv_operations args))
                                  (operations info)) of
                     Inl err \<Rightarrow> (Some err, w1)
                   | Inr nodes \<Rightarrow> (None, emitNodes (argv_write args) nodes w1)))))"

text \<open>The handler of the default command \<^verbatim>\<open>$0 <url> <filter>\<close>.\<close>

definition listHandler :: "env \<Rightarrow> string \<Rightarrow> string \<Rightarrow> world \<Rightarrow> error option \<times> world" where
  "listHandler e url filt w =
     (case fetchSchemaWithIntrospection e url w of
        (Inl err, w1) \<Rightarrow> (Some err, w1)
      | (Inr schema, w1) \<Rightarrow>
          (case findOperationsAndTypes schema of
             Inl err \<Rightarrow> (Some err, w1)
           | Inr info \<Rightarrow>
               (let queries = filter (\<lambda>operation. kind operation = ''query'') (operations info);
                    mutations = filter (\<lambda>operation. kind operation = ''mutation'') (operations info);
                    w2 = (if filt = ''query''
                          then fold (\<lambda>q w'. console_log (name q) w') queries w1 else w1);
                    w3 = (if filt = ''mutation''
                          then fold (\<lambda>m w'. console_log (name m) w') mutations w2 else w2)
                in (None, w3))))"


declare selectFields.simps [simp del]


section \<open>Notions used to state the properties\<close>

text \<open>
  The two root names, the kind a root gives its operations, the descriptor built from a
  root field, and what one definition contributes to the operations and to the catalog.
\<close>

definition isRootName :: "string \<Rightarrow> bool" where
  "isRootName nm = (nm = ''Mutation'' \<or> nm = ''Query'')"

definition kindOfRoot :: "string \<Rightarrow> string" where
  "kindOfRoot nm = (if nm = ''Mutation'' then ''mutation'' else ''query'')"

definition descriptor :: "string \<Rightarrow> fieldDefinition \<Rightarrow> operation" where
  "descriptor k f = \<lparr>kind = k, name = field_name f, astValue = f\<rparr>"

definition fieldsOrEmpty :: "fieldDefinition list option \<Rightarrow> fieldDefinition list" where
  "fieldsOrEmpty flds = (case flds of None \<Rightarrow> [] | Some fs \<Rightarrow> fs)"

fun descriptorsOf :: "definitionNode \<Rightarrow> operation list" where
  "descriptorsOf (ObjectTypeDefinition nm flds) =
     (if isRootName nm then map (descriptor (kindOfRoot nm)) (fieldsOrEmpty flds) else [])"
| "descriptorsOf (OtherDefinition k) = []"

fun catalogEntry :: "definitionNode \<Rightarrow> (string \<times> fieldDefinition list) list" where
  "catalogEntry (ObjectTypeDefinition nm flds) =
     (if isRootName nm then [] else [(nm, fieldsOrEmpty flds)])"
| "catalogEntry (OtherDefinition k) = []"

fun rootHasFields :: "definitionNode \<Rightarrow> bool" where
  "rootHasFields (ObjectTypeDefinition nm flds) = (isRootName nm \<longrightarrow> flds \<noteq> None)"
| "rootHasFields (OtherDefinition k) = True"


text \<open>
  A type reference seen from outside in: the list of its wrappers around a named type,
  and the text each wrapper puts before and after what it wraps.
\<close>

datatype wrapper = ListWrapper | NonNullWrapper

fun wrap :: "wrapper list \<Rightarrow> typeNode \<Rightarrow> typeNode" where
  "wrap [] t = t"
| "wrap (ListWrapper # ws) t = ListType (wrap ws t)"
| "wrap (NonNullWrapper # ws) t = NonNullType (wrap ws t)"

fun openingOf :: "wrapper \<Rightarrow> string" where
  "openingOf ListWrapper = ''[''"
| "openingOf NonNullWrapper = ''''"

fun closingOf :: "wrapper \<Rightarrow> string" where
  "closingOf ListWrapper = '']''"
| "closingOf NonNullWrapper = ''!''"

text \<open>
  The rendering for a variable declaration that would drop the non-null mark directly
  around the named type and keep every other wrapper.
\<close>

fun renderStrippingInnermostNonNull :: "typeNode \<Rightarrow> string" where
  "renderStrippingInnermostNonNull (NonNullType (NamedType n)) = n"
| "renderStrippingInnermostNonNull (NonNullType t) = renderStrippingInnermostNonNull t @ ''!''"
| "renderStrippingInnermostNonNull (ListType t) = ''['' @ renderStrippingInnermostNonNull t @ '']''"
| "renderStrippingInnermostNonNull (NamedType n) = n"



text \<open>
  The request that \<open>fetchSchemaWithIntrospection\<close> builds.
\<close>

definition introspectionRequest :: "env \<Rightarrow> httpRequest" where
  "introspectionRequest e =
     \<lparr>req_url = ''http://localhost:25202/'', req_method = ''POST'',
      req_headers = [(''Content-Type'', ''application/json'')],
      req_body = [(''query'', introspectionQuery e)]\<rparr>"

text \<open>
  The lines of \<open>code\<close> are read as tokens: an opening brace starts a selection block, a
  closing brace ends one. \<open>levelAfter lv ts\<close> is the number of open blocks after the
  tokens \<open>ts\<close>, starting from \<open>lv\<close> open blocks; \<open>deepest lv ts\<close> is the greatest number
  of open blocks reached on the way. A name is plain when it is not itself a brace, as
  every GraphQL name is.
\<close>

definition braceStep :: "nat \<Rightarrow> string \<Rightarrow> nat" where
  "braceStep lv t = (if t = ''{'' then lv + 1 else if t = ''}'' then lv - 1 else lv)"

fun levelAfter :: "nat \<Rightarrow> string list \<Rightarrow> nat" where
  "levelAfter lv [] = lv"
| "levelAfter lv (t # ts) = levelAfter (braceStep lv t) ts"

fun deepest :: "nat \<Rightarrow> string list \<Rightarrow> nat" where
  "deepest lv [] = lv"
| "deepest lv (t # ts) = max lv (deepest (braceStep lv t) ts)"

definition isBrace :: "string \<Rightarrow> bool" where
  "isBrace t = (t = ''{'' \<or> t = ''}'')"

definition plainNames :: "catalog \<Rightarrow> bool" where
  "plainNames tys = (\<forall>items \<in> ran tys. \<forall>item \<in> set items. \<not> isBrace (field_name item))"

text \<open>
  The bare type name of a field; the lines pushed before the sub-selection of the root
  field (imports, header, variable declarations, root field, argument bindings); the
  sub-selection of the root field; the line separator of \<^verbatim>\<open>code.join("\n")\<close>.
\<close>

definition bareType :: "fieldDefinition \<Rightarrow> string" where
  "bareType field = getTypeName (field_type field) False"

definition operationHead :: "operation \<Rightarrow> string list" where
  \<open>operationHead operation =
     [''import gql from "graphql-tag";'', '''', ''export default gql`'',
      kind operation @ '' '' @ upperFirst (name operation)] @
     (if hasArguments operation
      then [''('', join '','' (variableDeclarations (argumentsOf operation)), '')''] else []) @
     [''{'', name operation] @
     (if hasArguments operation
      then [''('', join '','' (argumentBindings (argumentsOf operation)), '')''] else [])\<close>

definition selectionOf :: "catalog \<Rightarrow> nat \<Rightarrow> operation \<Rightarrow> string list" where
  "selectionOf tys m operation =
     (case tys (bareType (astValue operation)) of
        None \<Rightarrow> []
      | Some items \<Rightarrow> [''{''] @ concat (map (\<lambda>field. selectFields tys m field [] 0) items) @ [''}''])"

definition newline :: string where
  "newline = [CHR 0x0A]"

text \<open>
  What write mode writes when nothing is in its way: the pairs of file name and content,
  in the order of the artifacts, and the lines it logs.
\<close>

definition writtenPairs :: "node list \<Rightarrow> (string \<times> string) list" where
  "writtenPairs nodes = map (\<lambda>n. (fileName n, node_code n)) nodes"

definition writtenLog :: "node list \<Rightarrow> string list" where
  "writtenLog nodes = map (\<lambda>n. ''Written to '' @ fileName n @ [CHR 0x0A]) nodes"


section \<open>Examples\<close>

text \<open>
  A schema with a scalar root field, a root field with two arguments returning an object
  type, two object types, one definition that is not an object type, and an object type
  without a field array; its catalog; an operation returning the type without fields; a
  type that refers to itself; and two runs of \<^verbatim>\<open>generate\<close> in write mode.
\<close>

definition nowField :: fieldDefinition where
  "nowField = \<lparr>field_name = ''now'', field_arguments = Some [], field_type = NamedType ''String''\<rparr>"

definition fooField :: fieldDefinition where
  "fooField =
     \<lparr>field_name = ''foo'',
      field_arguments = Some [\<lparr>arg_name = ''id'', arg_type = NonNullType (NamedType ''ID'')\<rparr>,
                              \<lparr>arg_name = ''tags'', arg_type = ListType (NonNullType (NamedType ''String''))\<rparr>],
      field_type = NamedType ''Foo''\<rparr>"

definition exampleSchema :: documentNode where
  "exampleSchema =
     [ObjectTypeDefinition ''Query'' (Some [nowField, fooField]),
      OtherDefinition ''ScalarTypeDefinition'',
      ObjectTypeDefinition ''Foo''
        (Some [\<lparr>field_name = ''id'', field_arguments = Some [], field_type = NonNullType (NamedType ''ID'')\<rparr>,
               \<lparr>field_name = ''bar'', field_arguments = Some [], field_type = NamedType ''Bar''\<rparr>]),
      ObjectTypeDefinition ''Bar''
        (Some [\<lparr>field_name = ''baz'', field_arguments = Some [], field_type = NamedType ''String''\<rparr>]),
      ObjectTypeDefinition ''Marker'' None]"

definition exampleCatalog :: catalog where
  "exampleCatalog =
     [''Foo'' \<mapsto> [\<lparr>field_name = ''id'', field_arguments = Some [], field_type = NonNullType (NamedType ''ID'')\<rparr>,
                 \<lparr>field_name = ''bar'', field_arguments = Some [], field_type = NamedType ''Bar''\<rparr>],
      ''Bar'' \<mapsto> [\<lparr>field_name = ''baz'', field_arguments = Some [], field_type = NamedType ''String''\<rparr>],
      ''Marker'' \<mapsto> []]"

definition exampleInfo :: schemaInfo where
  "exampleInfo = \<lparr>operations = [descriptor ''query'' nowField, descriptor ''query'' fooField],
                   types = exampleCatalog\<rparr>"

definition fooOperation :: operation where
  "fooOperation = descriptor ''query'' fooField"

definition markerOperation :: operation where
  "markerOperation =
     \<lparr>kind = ''query'', name = ''marker'',
      astValue = \<lparr>field_name = ''marker'', field_arguments = None, field_type = NamedType ''Marker''\<rparr>\<rparr>"

definition nextField :: fieldDefinition where
  "nextField = \<lparr>field_name = ''next'', field_arguments = Some [], field_type = NamedType ''Node''\<rparr>"

definition nodeCatalog :: catalog where
  "nodeCatalog =
     [''Node'' \<mapsto> [\<lparr>field_name = ''id'', field_arguments = Some [], field_type = NamedType ''ID''\<rparr>,
                  nextField]]"

definition exampleEnv :: env where
  "exampleEnv = \<lparr>introspectionQuery = ''query IntrospectionQuery { __schema { queryType { name } } }'',
                  endpoint = (\<lambda>request. Inr exampleSchema),
                  format = Inr\<rparr>"

definition emptyWorld :: world where
  "emptyWorld = \<lparr>files = Map.empty, stdout = [], requests = []\<rparr>"

definition conflictWorld :: world where
  "conflictWorld = \<lparr>files = [''FooQuery.ts'' \<mapsto> ''// kept''], stdout = [], requests = []\<rparr>"

definition exampleArgs :: argv where
  "exampleArgs = \<lparr>argv_url = ''http://localhost:4000/graphql'', argv_type = ''query'',
                   argv_operations = [''now'', ''foo''], argv_write = True\<rparr>"

definition exampleRequest :: httpRequest where
  "exampleRequest = introspectionRequest exampleEnv"

definition exampleNodes :: "node list" where
  "exampleNodes =
     [\<lparr>node_name = ''NowQuery'', fileName = ''NowQuery.ts'',
       node_code = join newline (codeLines (descriptor ''query'' nowField) exampleCatalog 2)\<rparr>,
      \<lparr>node_name = ''FooQuery'', fileName = ''FooQuery.ts'',
       node_code = join newline (codeLines fooOperation exampleCatalog 2)\<rparr>]"


section \<open>Facts about the catalog builder\<close>

lemma enter_cases:
  "enterObjectTypeDefinition nm flds acc =
     (if isRootName nm then
        (case flds of
           None \<Rightarrow> Inl TypeError
         | Some fs \<Rightarrow> Inr (acc\<lparr>operations := operations acc @ map (descriptor (kindOfRoot nm)) fs\<rparr>))
      else Inr (acc\<lparr>types := (types acc)(nm \<mapsto> fieldsOrEmpty flds)\<rparr>))"
  by (simp add: enterObjectTypeDefinition_def isRootName_def kindOfRoot_def
      fieldsOrEmpty_def descriptor_def [abs_def] Let_def split: option.split)

lemma catalog_step:
  "m(k \<mapsto> v) ++ map_of (rev es) = m ++ map_of (rev ((k, v) # es))"
  by (rule ext) (simp add: map_add_def split: option.split)

lemma visit_char:
  "visit ds acc =
     (if list_all rootHasFields ds
      then Inr (acc\<lparr>operations := operations acc @ concat (map descriptorsOf ds),
                    types := types acc ++ map_of (rev (concat (map catalogEntry ds)))\<rparr>)
      else Inl TypeError)"
proof (induction ds arbitrary: acc)
  case Nil
  show ?case by simp
next
  case (Cons d ds)
  show ?case
  proof (cases d)
    case (OtherDefinition k)
    then show ?thesis using Cons.IH [of acc] by simp
  next
    case (ObjectTypeDefinition nm flds)
    show ?thesis
    proof (cases "isRootName nm")
      case True
      show ?thesis
      proof (cases flds)
        case None
        then show ?thesis using True ObjectTypeDefinition by (simp add: enter_cases)
      next
        case (Some fs)
        then show ?thesis using True ObjectTypeDefinition
          by (simp add: enter_cases Cons.IH fieldsOrEmpty_def)
      qed
    next
      case False
      have "visit (d # ds) acc = visit ds (acc\<lparr>types := (types acc)(nm \<mapsto> fieldsOrEmpty flds)\<rparr>)"
        using False by (simp add: ObjectTypeDefinition enter_cases)
      also have "\<dots> =
         (if list_all rootHasFields ds
          then Inr (acc\<lparr>operations := operations acc @ concat (map descriptorsOf ds),
                        types := (types acc)(nm \<mapsto> fieldsOrEmpty flds)
                                   ++ map_of (rev (concat (map catalogEntry ds)))\<rparr>)
          else Inl TypeError)"
        by (simp add: Cons.IH)
      also have "\<dots> =
         (if list_all rootHasFields (d # ds)
          then Inr (acc\<lparr>operations := operations acc @ concat (map descriptorsOf (d # ds)),
                        types := types acc ++ map_of (rev (concat (map catalogEntry (d # ds))))\<rparr>)
          else Inl TypeError)"
        using False by (simp add: ObjectTypeDefinition catalog_step del: map_of_append rev.simps)
      finally show ?thesis .
    qed
  qed
qed


lemma findOperationsAndTypes_char:
  "findOperationsAndTypes schema =
     (if list_all rootHasFields schema
      then Inr \<lparr>operations = concat (map descriptorsOf schema),
                types = map_of (rev (concat (map catalogEntry schema)))\<rparr>
      else Inl TypeError)"
  by (simp add: findOperationsAndTypes_def visit_char)

lemma catalogEntry_keys:
  "fst ` set (concat (map catalogEntry ds)) =
     {nm. \<not> isRootName nm \<and> (\<exists>flds. ObjectTypeDefinition nm flds \<in> set ds)}"
proof (induction ds)
  case Nil
  show ?case by simp
next
  case (Cons d ds)
  show ?case
  proof (cases d)
    case (OtherDefinition k)
    then show ?thesis using Cons.IH by auto
  next
    case (ObjectTypeDefinition nm flds)
    then show ?thesis using Cons.IH by auto
  qed
qed

lemma catalog_dom:
  "dom (map_of (rev (concat (map catalogEntry ds)))) =
     {nm. \<not> isRootName nm \<and> (\<exists>flds. ObjectTypeDefinition nm flds \<in> set ds)}"
proof -
  have "dom (map_of (rev (concat (map catalogEntry ds)))) = fst ` set (rev (concat (map catalogEntry ds)))"
    by (rule dom_map_of_conv_image_fst)
  also have "\<dots> = fst ` set (concat (map catalogEntry ds))"
    by (simp only: set_rev)
  finally show ?thesis by (simp only: catalogEntry_keys)
qed

lemma catalog_last_wins:
  assumes "\<not> isRootName nm" and "\<forall>flds'. ObjectTypeDefinition nm flds' \<notin> set after"
  shows "map_of (rev (concat (map catalogEntry (before @ ObjectTypeDefinition nm flds # after)))) nm
           = Some (fieldsOrEmpty flds)"
proof -
  have "nm \<notin> dom (map_of (rev (concat (map catalogEntry after))))"
    unfolding catalog_dom using assms(2) by simp
  then have "map_of (rev (concat (map catalogEntry after))) nm = None"
    by (simp add: dom_def)
  then show ?thesis
    using assms(1) by (simp add: map_add_def)
qed

lemma member_length: "x \<in> set xs \<Longrightarrow> 1 \<le> length xs"
  by (cases xs) simp_all



lemma descriptor_in_operations:
  assumes "findOperationsAndTypes schema = Inr info"
    and "ObjectTypeDefinition r (Some fs) \<in> set schema" and "isRootName r" and "f \<in> set fs"
  shows "descriptor (kindOfRoot r) f \<in> set (operations info)"
proof -
  have "operations info = concat (map descriptorsOf schema)"
    using assms(1) by (auto simp: findOperationsAndTypes_char split: if_splits)
  moreover have "descriptor (kindOfRoot r) f \<in> set (descriptorsOf (ObjectTypeDefinition r (Some fs)))"
    using assms(3,4) by (simp add: fieldsOrEmpty_def)
  ultimately show ?thesis using assms(2) by (auto simp del: descriptorsOf.simps)
qed


section \<open>Facts about the synthesizer\<close>

lemma braceStep_open [simp]: "braceStep lv ''{'' = lv + 1"
  by (simp add: braceStep_def)

lemma braceStep_close [simp]: "braceStep lv ''}'' = lv - 1"
  by (simp add: braceStep_def)

lemma braceStep_plain: "\<not> isBrace t \<Longrightarrow> braceStep lv t = lv"
  by (simp add: braceStep_def isBrace_def)

lemma levelAfter_append: "levelAfter lv (xs @ ys) = levelAfter (levelAfter lv xs) ys"
  by (induction xs arbitrary: lv) simp_all

lemma deepest_ge: "lv \<le> deepest lv xs"
  by (cases xs) simp_all

lemma deepest_append: "deepest lv (xs @ ys) = max (deepest lv xs) (deepest (levelAfter lv xs) ys)"
proof (induction xs arbitrary: lv)
  case Nil
  show ?case using deepest_ge [of lv ys] by simp
next
  case (Cons t xs)
  show ?case by (simp add: Cons.IH max.assoc)
qed

lemma fold_pushes:
  assumes "\<And>item c. item \<in> set items \<Longrightarrow> f item c = c @ f item []"
  shows "fold f items c0 = c0 @ concat (map (\<lambda>item. f item []) items)"
  using assms
proof (induction items arbitrary: c0)
  case Nil
  show ?case by simp
next
  case (Cons a items)
  have "fold f (a # items) c0 = fold f items (f a c0)" by simp
  also have "\<dots> = f a c0 @ concat (map (\<lambda>item. f item []) items)"
    by (rule Cons.IH) (rule Cons.prems, simp)
  also have "f a c0 = c0 @ f a []"
    by (rule Cons.prems) simp
  finally show ?case by simp
qed

lemma selectFields_pushes:
  "selectFields tys m field code depth = code @ selectFields tys m field [] depth"
proof (induction tys m field code depth rule: selectFields.induct)
  case (1 tys m field code depth)
  show ?case
  proof (cases "tys (getTypeName (field_type field) False)")
    case None
    then show ?thesis by (simp add: selectFields.simps [of tys m field])
  next
    case (Some items)
    show ?thesis
    proof (cases "depth < m")
      case False
      then show ?thesis using Some by (simp add: selectFields.simps [of tys m field])
    next
      case True
      have ih: "selectFields tys m item c (depth + 1) = c @ selectFields tys m item [] (depth + 1)"
        if "item \<in> set items" for item c
        using "1.IH" [OF refl refl Some refl True that] .
      have "fold (\<lambda>item c. selectFields tys m item c (depth + 1)) items c0 =
              c0 @ concat (map (\<lambda>item. selectFields tys m item [] (depth + 1)) items)" for c0
        using ih by (rule fold_pushes)
      then show ?thesis using Some True
        by (simp add: selectFields.simps [of tys m field])
    qed
  qed
qed

lemma selectFields_unfold:
  "selectFields tys m field code depth =
     code @ (case tys (bareType field) of
               None \<Rightarrow> [field_name field]
             | Some items \<Rightarrow>
                 if depth < m
                 then [field_name field, ''{''] @
                      concat (map (\<lambda>item. selectFields tys m item [] (depth + 1)) items) @ [''}'']
                 else [field_name field])"
proof -
  have "fold (\<lambda>item c. selectFields tys m item c (depth + 1)) items c0 =
          c0 @ concat (map (\<lambda>item. selectFields tys m item [] (depth + 1)) items)" for items c0
    by (rule fold_pushes) (rule selectFields_pushes)
  then show ?thesis
    by (simp add: selectFields.simps [of tys m field] bareType_def split: option.split)
qed

lemma concat_nesting:
  assumes "\<And>x. x \<in> set xs \<Longrightarrow> levelAfter lv (g x) = lv \<and> deepest lv (g x) \<le> b" and "lv \<le> b"
  shows "levelAfter lv (concat (map g xs)) = lv \<and> deepest lv (concat (map g xs)) \<le> b"
  using assms
proof (induction xs)
  case Nil
  then show ?case by simp
next
  case (Cons x xs)
  have x: "levelAfter lv (g x) = lv" "deepest lv (g x) \<le> b"
    using Cons.prems(1) [of x] by simp_all
  have r: "levelAfter lv (concat (map g xs)) = lv \<and> deepest lv (concat (map g xs)) \<le> b"
    by (rule Cons.IH) (simp_all add: Cons.prems)
  show ?case
    using x r by (simp add: levelAfter_append deepest_append)
qed

lemma selectFields_nesting:
  assumes "plainNames tys" and "\<not> isBrace (field_name field)"
  shows "levelAfter lv (selectFields tys m field [] depth) = lv \<and>
         deepest lv (selectFields tys m field [] depth) \<le> lv + (m - depth)"
  using assms(2)
proof (induction "m - depth" arbitrary: field depth lv)
  case 0
  then have "\<not> depth < m" by simp
  then show ?case
    using "0.prems" by (simp add: selectFields_unfold [of tys m field "[]"] braceStep_plain split: option.split)
next
  case (Suc k)
  then have lt: "depth < m" by simp
  show ?case
  proof (cases "tys (bareType field)")
    case None
    then show ?thesis
      using Suc.prems by (simp add: selectFields_unfold [of tys m field "[]"] braceStep_plain)
  next
    case (Some items)
    let ?inner = "concat (map (\<lambda>item. selectFields tys m item [] (depth + 1)) items)"
    have k: "k = m - (depth + 1)" using Suc.hyps(2) by simp
    have p: "\<not> isBrace (field_name item)" if "item \<in> set items" for item
      using assms(1) Some that by (auto simp: plainNames_def ran_def)
    have i: "levelAfter (lv + 1) ?inner = lv + 1 \<and> deepest (lv + 1) ?inner \<le> lv + (m - depth)"
    proof (rule concat_nesting)
      fix item assume "item \<in> set items"
      then have "\<not> isBrace (field_name item)" by (rule p)
      from Suc.hyps(1) [OF k this, of "lv + 1"]
      have "levelAfter (lv + 1) (selectFields tys m item [] (depth + 1)) = lv + 1"
        and "deepest (lv + 1) (selectFields tys m item [] (depth + 1)) \<le> lv + 1 + (m - (depth + 1))"
        by simp_all
      moreover have "lv + 1 + (m - (depth + 1)) = lv + (m - depth)"
        using lt by arith
      ultimately
      show "levelAfter (lv + 1) (selectFields tys m item [] (depth + 1)) = lv + 1 \<and>
            deepest (lv + 1) (selectFields tys m item [] (depth + 1)) \<le> lv + (m - depth)"
        by (simp only:)
    next
      show "lv + 1 \<le> lv + (m - depth)" using lt by simp
    qed
    have u: "selectFields tys m field [] depth = [field_name field, ''{''] @ ?inner @ [''}'']"
      using Some lt by (simp add: selectFields_unfold [of tys m field "[]"])
    show ?thesis
      unfolding u using i Suc.prems lt
      by (simp add: levelAfter_append deepest_append braceStep_plain)
  qed
qed

lemma codeLines_unfold:
  "codeLines operation tys m =
     operationHead operation @
     (case tys (bareType (astValue operation)) of
        None \<Rightarrow> []
      | Some items \<Rightarrow> [''{''] @ concat (map (\<lambda>field. selectFields tys m field [] 0) items) @ [''}'']) @
     [''}'', ''`'', '''']"
proof -
  have "fold (\<lambda>field c. selectFields tys m field c 0) items c0 =
          c0 @ concat (map (\<lambda>field. selectFields tys m field [] 0) items)" for items c0
    by (rule fold_pushes) (rule selectFields_pushes)
  then show ?thesis
    by (simp add: codeLines_def operationHead_def bareType_def Let_def split: option.split)
qed

lemma join_Cons: "\<exists>rest. join sep (x # xs) = x @ rest"
  by (cases xs) simp_all

lemma isBrace_length: "isBrace t \<Longrightarrow> length t = 1"
  by (auto simp: isBrace_def)

lemma header_plain: "\<not> isBrace (k @ CHR '' '' # u)"
proof
  assume "isBrace (k @ CHR '' '' # u)"
  then have "length (k @ CHR '' '' # u) = 1"
    by (rule isBrace_length)
  then have "k = []" by simp
  with \<open>isBrace (k @ CHR '' '' # u)\<close> show False
    by (simp add: isBrace_def)
qed

lemma join_length: "length x \<le> length (join sep (x # xs))"
  by (cases xs) simp_all

lemma join_hd: "x \<noteq> [] \<Longrightarrow> hd (join sep (x # xs)) = hd x"
  by (cases xs) simp_all

lemma isBrace_hd: "isBrace t \<Longrightarrow> hd t = CHR ''{'' \<or> hd t = CHR ''}''"
  by (auto simp: isBrace_def)

lemma declarations_plain:
  assumes "as \<noteq> []"
  shows "\<not> isBrace (join '','' (variableDeclarations as))"
proof
  assume b: "isBrace (join '','' (variableDeclarations as))"
  obtain a rest where as: "as = a # rest" using assms by (cases as) auto
  define d where "d = ''$'' @ arg_name a @ '': '' @ getTypeName (arg_type a) True"
  have v: "variableDeclarations as = d # variableDeclarations rest"
    by (simp add: as variableDeclarations_def d_def)
  have "d \<noteq> []" "hd d = CHR ''$''" by (simp_all add: d_def)
  then have "hd (join '','' (variableDeclarations as)) = CHR ''$''"
    unfolding v by (simp add: join_hd)
  with isBrace_hd [OF b] show False by simp
qed

lemma bindings_plain:
  assumes "as \<noteq> []"
  shows "\<not> isBrace (join '','' (argumentBindings as))"
proof
  assume b: "isBrace (join '','' (argumentBindings as))"
  obtain a rest where as: "as = a # rest" using assms by (cases as) auto
  define d where "d = arg_name a @ '': $'' @ arg_name a"
  have v: "argumentBindings as = d # argumentBindings rest"
    by (simp add: as argumentBindings_def d_def)
  have "3 \<le> length d" by (simp add: d_def)
  then have "3 \<le> length (join '','' (argumentBindings as))"
    unfolding v using join_length [of d "'',''" "argumentBindings rest"] by simp
  with isBrace_length [OF b] show False by simp
qed

lemma hasArguments_nonempty: "hasArguments operation \<Longrightarrow> argumentsOf operation \<noteq> []"
  by (auto simp: hasArguments_def argumentsOf_def split: option.splits)

lemma operationHead_nesting:
  assumes "\<not> isBrace (name operation)"
  shows "levelAfter 0 (operationHead operation) = 1 \<and> deepest 0 (operationHead operation) = 1"
proof -
  have c: \<open>\<not> isBrace ''import gql from "graphql-tag";''\<close> "\<not> isBrace ''''"
    "\<not> isBrace ''export default gql`''" "\<not> isBrace ''(''" "\<not> isBrace '')''"
    by (simp_all add: isBrace_def)
  note p = c header_plain assms
  show ?thesis
  proof (cases "hasArguments operation")
    case False
    then show ?thesis
      by (simp add: operationHead_def braceStep_plain p)
  next
    case True
    then have "argumentsOf operation \<noteq> []" by (rule hasArguments_nonempty)
    then have "\<not> isBrace (join '','' (variableDeclarations (argumentsOf operation)))"
      "\<not> isBrace (join '','' (argumentBindings (argumentsOf operation)))"
      by (simp_all add: declarations_plain bindings_plain)
    then show ?thesis using True
      by (simp add: operationHead_def braceStep_plain p)
  qed
qed

lemma codeLines_nesting:
  assumes "plainNames tys" and "\<not> isBrace (name operation)"
  shows "deepest 0 (codeLines operation tys m) \<le> m + 2 \<and> levelAfter 0 (codeLines operation tys m) = 0"
proof -
  have h: "levelAfter 0 (operationHead operation) = 1" "deepest 0 (operationHead operation) = 1"
    using operationHead_nesting [OF assms(2)] by simp_all
  have t: "\<not> isBrace ''`''" "\<not> isBrace ''''" by (simp_all add: isBrace_def)
  show ?thesis
  proof (cases "tys (bareType (astValue operation))")
    case None
    then show ?thesis
      by (simp add: codeLines_unfold levelAfter_append deepest_append h braceStep_plain t)
  next
    case (Some items)
    let ?inner = "concat (map (\<lambda>field. selectFields tys m field [] 0) items)"
    have p: "\<not> isBrace (field_name item)" if "item \<in> set items" for item
      using assms(1) Some that by (auto simp: plainNames_def ran_def)
    have i: "levelAfter 2 ?inner = 2 \<and> deepest 2 ?inner \<le> m + 2"
    proof (rule concat_nesting)
      fix item assume "item \<in> set items"
      then have "\<not> isBrace (field_name item)" by (rule p)
      from selectFields_nesting [OF assms(1) this, of 2 m 0]
      show "levelAfter 2 (selectFields tys m item [] 0) = 2 \<and>
            deepest 2 (selectFields tys m item [] 0) \<le> m + 2"
        by (simp add: add.commute)
    next
      show "2 \<le> m + 2" by simp
    qed
    have u: "codeLines operation tys m =
        operationHead operation @ [''{''] @ ?inner @ [''}'', ''}'', ''`'', '''']"
      using Some by (simp add: codeLines_unfold)
    show ?thesis
      unfolding u using i
      by (simp add: levelAfter_append deepest_append h braceStep_plain t numeral_2_eq_2)
  qed
qed

lemma join_append:
  "xs \<noteq> [] \<Longrightarrow> ys \<noteq> [] \<Longrightarrow> join sep (xs @ ys) = join sep xs @ sep @ join sep ys"
proof (induction sep xs rule: join.induct)
  case (1 sep)
  then show ?case by simp
next
  case (2 sep x)
  then show ?case by (cases ys) simp_all
next
  case (3 sep x y zs)
  then show ?case by simp
qed

lemma operationHead_nonempty: "operationHead operation \<noteq> []"
  by (simp add: operationHead_def)


section \<open>Facts about the handlers\<close>

lemma fetch_request:
  "fetchSchemaWithIntrospection e url w =
     (endpoint e (introspectionRequest e), w\<lparr>requests := requests w @ [introspectionRequest e]\<rparr>)"
  by (simp add: fetchSchemaWithIntrospection_def introspectionRequest_def Let_def)

lemma requests_fold:
  assumes "\<And>x w'. requests (f x w') = requests w'"
  shows "requests (fold f xs w) = requests w"
  by (induction xs arbitrary: w) (simp_all add: assms)

lemma requests_console_log: "requests (console_log s w) = requests w"
  by (simp add: console_log_def stdout_write_def)

lemma write_all:
  "fold (\<lambda>n w'. console_log (''Written to '' @ fileName n)
                   (writeFileSync (fileName n) (node_code n) w')) nodes w =
     w\<lparr>files := files w ++ map_of (rev (writtenPairs nodes)),
       stdout := stdout w @ writtenLog nodes\<rparr>"
proof (induction nodes arbitrary: w)
  case Nil
  show ?case by (simp add: writtenPairs_def writtenLog_def)
next
  case (Cons n nodes)
  have s: "files w ++ map_of (rev (writtenPairs (n # nodes))) =
        (files w)(fileName n \<mapsto> node_code n) ++ map_of (rev (writtenPairs nodes))"
    unfolding writtenPairs_def list.map by (rule catalog_step [symmetric])
  let ?step = "\<lambda>n w'. console_log (''Written to '' @ fileName n)
                   (writeFileSync (fileName n) (node_code n) w')"
  have "fold ?step (n # nodes) w = fold ?step nodes (?step n w)"
    by (simp only: fold.simps comp_def)
  also have "\<dots> = (?step n w)\<lparr>files := files (?step n w) ++ map_of (rev (writtenPairs nodes)),
       stdout := stdout (?step n w) @ writtenLog nodes\<rparr>"
    by (rule Cons.IH)
  also have "\<dots> = w\<lparr>files := files w ++ map_of (rev (writtenPairs (n # nodes))),
       stdout := stdout w @ writtenLog (n # nodes)\<rparr>"
    unfolding s
    by (simp add: console_log_def stdout_write_def writeFileSync_def writtenLog_def)
  finally show ?case .
qed

lemma emitNodes_safe:
  assumes "\<forall>n \<in> set nodes. files w (fileName n) = None"
  shows "emitNodes True nodes w =
     w\<lparr>files := files w ++ map_of (rev (writtenPairs nodes)),
       stdout := stdout w @ writtenLog nodes\<rparr>"
proof -
  have "list_all (\<lambda>n. \<not> existsSync w (fileName n)) nodes"
    using assms by (simp add: list_all_iff existsSync_def)
  then show ?thesis
    by (simp only: emitNodes_def Let_def write_all if_True)
qed

lemma emitNodes_conflict:
  assumes "\<exists>n \<in> set nodes. files w (fileName n) \<noteq> None"
  shows "emitNodes True nodes w = w"
proof -
  have "\<not> list_all (\<lambda>n. \<not> existsSync w (fileName n)) nodes"
    using assms by (simp add: list_all_iff existsSync_def)
  then show ?thesis
    by (simp only: emitNodes_def Let_def if_True if_False)
qed

lemma written_some:
  assumes "n \<in> set nodes"
  shows "\<exists>n' \<in> set nodes. fileName n' = fileName n \<and>
           (m ++ map_of (rev (writtenPairs nodes))) (fileName n) = Some (node_code n')"
proof -
  have "fileName n \<in> fst ` set (rev (writtenPairs nodes))"
    using assms by (force simp: writtenPairs_def)
  then obtain c where c: "map_of (rev (writtenPairs nodes)) (fileName n) = Some c"
    by (metis domD dom_map_of_conv_image_fst)
  then have "(fileName n, c) \<in> set (writtenPairs nodes)"
    using map_of_SomeD by fastforce
  then obtain n' where "n' \<in> set nodes" "fileName n' = fileName n" "node_code n' = c"
    by (auto simp: writtenPairs_def)
  then show ?thesis using c by (auto simp: map_add_def)
qed

lemma written_distinct:
  assumes "n \<in> set nodes" and "distinct (map fileName nodes)"
  shows "(m ++ map_of (rev (writtenPairs nodes))) (fileName n) = Some (node_code n)"
proof -
  have "map fst (writtenPairs nodes) = map fileName nodes"
    by (simp add: writtenPairs_def comp_def)
  then have "distinct (map fst (rev (writtenPairs nodes)))"
    using assms(2) by (simp add: rev_map [symmetric])
  moreover have "(fileName n, node_code n) \<in> set (rev (writtenPairs nodes))"
    using assms(1) by (force simp: writtenPairs_def)
  ultimately have "map_of (rev (writtenPairs nodes)) (fileName n) = Some (node_code n)"
    by (rule map_of_is_SomeI)
  then show ?thesis by (simp add: map_add_def)
qed

lemma requests_emitNodes: "requests (emitNodes write nodes w) = requests w"
proof -
  have a: "requests (fold (\<lambda>n w'. console_log (''Written to '' @ fileName n)
                          (writeFileSync (fileName n) (node_code n) w')) nodes w) = requests w"
    by (rule requests_fold) (simp add: requests_console_log writeFileSync_def)
  have b: "requests (fold (\<lambda>n w'. stdout_write (node_code n) (console_log (''// '' @ fileName n) w'))
                       nodes w) = requests w"
    by (rule requests_fold) (simp add: requests_console_log stdout_write_def)
  show ?thesis
    unfolding emitNodes_def Let_def using a b by (simp only: if_distrib [of requests] if_cancel)
qed

lemma listHandler_one_request:
  "requests (snd (listHandler e url filt w)) = requests w @ [introspectionRequest e]"
proof -
  have c: "requests (fold (\<lambda>q w'. console_log (name q) w') qs w') = requests w'" for qs w'
    by (rule requests_fold) (rule requests_console_log)
  show ?thesis
    by (simp add: listHandler_def fetch_request Let_def c split: sum.split)
qed

lemma generateHandler_one_request:
  "argv_operations args \<noteq> [] \<Longrightarrow>
   requests (snd (generateHandler e args w)) = requests w @ [introspectionRequest e]"
  by (simp add: generateHandler_def fetch_request requests_emitNodes split: sum.split)


section \<open>Facts about the examples\<close>

lemma exampleSchema_info: "findOperationsAndTypes exampleSchema = Inr exampleInfo"
  by (simp add: findOperationsAndTypes_def exampleSchema_def exampleInfo_def exampleCatalog_def
      enterObjectTypeDefinition_def descriptor_def fooField_def Let_def)

lemma nodeCatalog_plain: "plainNames nodeCatalog"
  by (simp add: plainNames_def nodeCatalog_def nextField_def isBrace_def)

lemma next_selection:
  "selectFields nodeCatalog 2 nextField [] 0 =
     [''next'', ''{'', ''id'', ''next'', ''{'', ''id'', ''next'', ''}'', ''}'']"
  by code_simp

lemma next_operation_depth:
  "deepest 0 (codeLines (descriptor ''query'' nextField) nodeCatalog 2) = 4"
  by code_simp

lemma foo_arguments:
  "argumentsOf fooOperation =
     [\<lparr>arg_name = ''id'', arg_type = NonNullType (NamedType ''ID'')\<rparr>,
      \<lparr>arg_name = ''tags'', arg_type = ListType (NonNullType (NamedType ''String''))\<rparr>]"
  by (simp add: fooOperation_def descriptor_def fooField_def argumentsOf_def)

lemma foo_selection:
  "selectionOf exampleCatalog 2 fooOperation = [''{'', ''id'', ''bar'', ''{'', ''baz'', ''}'', ''}'']"
  by code_simp

lemma example_fetch:
  "fetchSchemaWithIntrospection exampleEnv (argv_url exampleArgs) w =
     (Inr exampleSchema, w\<lparr>requests := requests w @ [exampleRequest]\<rparr>)"
  by (simp add: fetch_request exampleRequest_def exampleEnv_def)

lemma example_nodes:
  "buildNodes exampleEnv (types exampleInfo)
     (filter (\<lambda>operation. kind operation = argv_type exampleArgs \<and>
                          name operation \<in> set (argv_operations exampleArgs))
             (operations exampleInfo)) = Inr exampleNodes"
  by (simp add: exampleInfo_def exampleArgs_def exampleEnv_def exampleNodes_def descriptor_def
      fooOperation_def nowField_def fooField_def generateCodeForOperation_def
      defaultMaxFieldsSelectionDepth_def newline_def toUpperCase_def)

lemma print_scenario:
  "generateHandler exampleEnv
     \<lparr>argv_url = ''http://localhost:4000/graphql'', argv_type = ''query'',
       argv_operations = [''now''], argv_write = False\<rparr> emptyWorld =
   (None,
    \<lparr>files = Map.empty,
     stdout = [''// NowQuery.ts'' @ newline,
               ''import gql from \"graphql-tag\";'' @ newline @ newline @
               ''export default gql`'' @ newline @ ''query Now'' @ newline @
               ''{'' @ newline @ ''now'' @ newline @ ''}'' @ newline @ ''`'' @ newline],
     requests = [exampleRequest]\<rparr>)"
proof -
  have c: "codeLines (descriptor ''query'' nowField) exampleCatalog 2 =
     [''import gql from \"graphql-tag\";'', '''', ''export default gql`'', ''query Now'',
      ''{'', ''now'', ''}'', ''`'', '''']"
    by code_simp
  have n: "buildNodes exampleEnv (types exampleInfo) [descriptor ''query'' nowField] =
      Inr [\<lparr>node_name = ''NowQuery'', fileName = ''NowQuery.ts'',
             node_code = ''import gql from \"graphql-tag\";'' @ newline @ newline @
               ''export default gql`'' @ newline @ ''query Now'' @ newline @
               ''{'' @ newline @ ''now'' @ newline @ ''}'' @ newline @ ''`'' @ newline\<rparr>]"
    by (simp add: generateCodeForOperation_def defaultMaxFieldsSelectionDepth_def c exampleEnv_def
        newline_def exampleInfo_def) (simp add: descriptor_def nowField_def toUpperCase_def)
  have f: "filter (\<lambda>operation. kind operation = ''query'' \<and> name operation = ''now'')
             (operations exampleInfo) = [descriptor ''query'' nowField]"
    by (simp add: exampleInfo_def descriptor_def nowField_def fooField_def)
  have fe: "fetchSchemaWithIntrospection exampleEnv ''http://localhost:4000/graphql'' emptyWorld =
     (Inr exampleSchema, emptyWorld\<lparr>requests := requests emptyWorld @ [exampleRequest]\<rparr>)"
    using example_fetch [of emptyWorld] by (simp add: exampleArgs_def)
  have "generateHandler exampleEnv
     \<lparr>argv_url = ''http://localhost:4000/graphql'', argv_type = ''query'',
       argv_operations = [''now''], argv_write = False\<rparr> emptyWorld =
     (None, emitNodes False
        [\<lparr>node_name = ''NowQuery'', fileName = ''NowQuery.ts'',
             node_code = ''import gql from \"graphql-tag\";'' @ newline @ newline @
               ''export default gql`'' @ newline @ ''query Now'' @ newline @
               ''{'' @ newline @ ''now'' @ newline @ ''}'' @ newline @ ''`'' @ newline\<rparr>]
        (emptyWorld\<lparr>requests := requests emptyWorld @ [exampleRequest]\<rparr>))"
    by (simp add: generateHandler_def fe exampleSchema_info f n del: buildNodes.simps)
  then show ?thesis
    by (simp add: emitNodes_def console_log_def stdout_write_def emptyWorld_def newline_def)
qed


section \<open>The claims\<close>

text \<open>
  C1. Claimed: every invocation fetches the schema with one POST request to the endpoint
  URL given on the command line, with the introspection query as its JSON body. The code
  sends one POST request with that body, but to the literal address
  \<^verbatim>\<open>http://localhost:25202/\<close>: the \<open>url\<close> parameter is never read. Here the function
  is evaluated at the URL \<^verbatim>\<open>https://api.example.com/graphql\<close>.
\<close>

theorem fetch_goes_to_fixed_address:
  "fetchSchemaWithIntrospection e ''https://api.example.com/graphql'' w =
     (endpoint e \<lparr>req_url = ''http://localhost:25202/'', req_method = ''POST'',
                   req_headers = [(''Content-Type'', ''application/json'')],
                   req_body = [(''query'', introspectionQuery e)]\<rparr>,
      w\<lparr>requests := requests w @
           [\<lparr>req_url = ''http://localhost:25202/'', req_method = ''POST'',
             req_headers = [(''Content-Type'', ''application/json'')],
             req_body = [(''query'', introspectionQuery e)]\<rparr>]\<rparr>) \<and>
   ''http://localhost:25202/'' \<noteq> ''https://api.example.com/graphql''"
  by (simp add: fetchSchemaWithIntrospection_def Let_def)

text \<open>
  C2. Let no field name of the catalog be a brace. A field whose bare type is a catalog
  key is pushed with a block holding the selection of every field of that type, one level
  deeper, when the depth is below the maximum; at or beyond the maximum it is pushed
  alone. Whatever \<open>selectFields\<close> pushes for a field closes every block it opens and
  never has more than \<open>maxFieldsSelectionDepth - depth\<close> blocks open at once. So the
  lines of an operation never have more than the maximum plus two blocks open: the body
  of the operation, the sub-selection of the root field, and at most the maximum below
  it; with the default maximum of 2 that is four.
\<close>

theorem selectFields_depth_bound:
  assumes "plainNames tys" and "\<not> isBrace (field_name field)"
  shows "(tys (bareType field) = Some items \<and> depth < m \<longrightarrow>
            selectFields tys m field code depth =
              code @ [field_name field, ''{''] @
              concat (map (\<lambda>item. selectFields tys m item [] (depth + 1)) items) @ [''}'']) \<and>
         (tys (bareType field) = Some items \<and> \<not> depth < m \<longrightarrow>
            selectFields tys m field code depth = code @ [field_name field]) \<and>
         (\<exists>out. selectFields tys m field code depth = code @ out \<and>
                levelAfter lv out = lv \<and> deepest lv out \<le> lv + (m - depth)) \<and>
         (\<not> isBrace (name operation) \<longrightarrow>
            deepest 0 (codeLines operation tys m) \<le> m + 2 \<and>
            deepest 0 (codeLines operation tys defaultMaxFieldsSelectionDepth) \<le> 4)"
proof (intro conjI impI)
  assume "tys (bareType field) = Some items \<and> depth < m"
  then show "selectFields tys m field code depth =
              code @ [field_name field, ''{''] @
              concat (map (\<lambda>item. selectFields tys m item [] (depth + 1)) items) @ [''}'']"
    by (simp add: selectFields_unfold [of tys m field code])
next
  assume "tys (bareType field) = Some items \<and> \<not> depth < m"
  then show "selectFields tys m field code depth = code @ [field_name field]"
    by (simp add: selectFields_unfold [of tys m field code])
next
  have "selectFields tys m field code depth = code @ selectFields tys m field [] depth"
    by (rule selectFields_pushes)
  with selectFields_nesting [OF assms, of lv m depth]
  show "\<exists>out. selectFields tys m field code depth = code @ out \<and>
                levelAfter lv out = lv \<and> deepest lv out \<le> lv + (m - depth)"
    by blast
next
  assume "\<not> isBrace (name operation)"
  with assms(1) codeLines_nesting [of tys operation m]
  show "deepest 0 (codeLines operation tys m) \<le> m + 2"
    by blast
next
  assume "\<not> isBrace (name operation)"
  with assms(1) codeLines_nesting [of tys operation defaultMaxFieldsSelectionDepth]
  show "deepest 0 (codeLines operation tys defaultMaxFieldsSelectionDepth) \<le> 4"
    by (simp add: defaultMaxFieldsSelectionDepth_def)
qed

theorem selectFields_depth_bound_witness:
  "plainNames nodeCatalog \<and> \<not> isBrace (field_name nextField) \<and>
   \<not> isBrace (name (descriptor ''query'' nextField)) \<and>
   selectFields nodeCatalog 2 nextField [] 0 =
     [''next'', ''{'', ''id'', ''next'', ''{'', ''id'', ''next'', ''}'', ''}''] \<and>
   deepest 0 (selectFields nodeCatalog 2 nextField [] 0) \<le> 2 \<and>
   deepest 0 (codeLines (descriptor ''query'' nextField) nodeCatalog 2) \<le> 4 \<and>
   deepest 0 (codeLines (descriptor ''query'' nextField) nodeCatalog 2) = 4"
proof -
  have h: "\<not> isBrace (field_name nextField)"
    by (simp add: nextField_def isBrace_def)
  have n: "\<not> isBrace (name (descriptor ''query'' nextField))"
    by (simp add: descriptor_def nextField_def isBrace_def)
  note t = selectFields_depth_bound [OF nodeCatalog_plain h,
      where lv = 0 and m = 2 and depth = 0 and code = "[]"
        and operation = "descriptor ''query'' nextField"]
  from t obtain out where "selectFields nodeCatalog 2 nextField [] 0 = [] @ out"
    and "deepest 0 out \<le> 0 + (2 - 0)"
    by blast
  then have s: "deepest 0 (selectFields nodeCatalog 2 nextField [] 0) \<le> 2"
    by simp
  from t n have c: "deepest 0 (codeLines (descriptor ''query'' nextField) nodeCatalog 2) \<le> 4"
    by simp
  from nodeCatalog_plain h n next_selection s c next_operation_depth
  show ?thesis by (intro conjI)
qed

text \<open>
  C3. Take a run of \<^verbatim>\<open>generate\<close> in write mode whose fetch, catalog and formatting
  have succeeded with the artifacts \<open>nodes\<close>. If no target file exists, the run ends
  without an exception, every artifact has been written in order (a file holds the code
  of the last artifact of its name, which is its own when the names are distinct), and
  one line per artifact has been logged. If some target file exists, the run ends
  without an exception and has neither written a file nor printed anything.
\<close>

theorem write_mode_all_or_nothing:
  assumes "argv_write args" and "argv_operations args \<noteq> []"
    and "fetchSchemaWithIntrospection e (argv_url args) w = (Inr schema, w1)"
    and "findOperationsAndTypes schema = Inr info"
    and "buildNodes e (types info)
           (filter (\<lambda>operation. kind operation = argv_type args \<and>
                                name operation \<in> set (argv_operations args)) (operations info))
         = Inr nodes"
  shows "((\<forall>n \<in> set nodes. files w (fileName n) = None) \<longrightarrow>
            (\<exists>w'. generateHandler e args w = (None, w') \<and>
               files w' = files w ++ map_of (rev (writtenPairs nodes)) \<and>
               stdout w' = stdout w @ writtenLog nodes \<and>
               (\<forall>n \<in> set nodes. \<exists>n' \<in> set nodes. fileName n' = fileName n \<and>
                   files w' (fileName n) = Some (node_code n')) \<and>
               (distinct (map fileName nodes) \<longrightarrow>
                  (\<forall>n \<in> set nodes. files w' (fileName n) = Some (node_code n))))) \<and>
         ((\<exists>n \<in> set nodes. files w (fileName n) \<noteq> None) \<longrightarrow>
            (\<exists>w'. generateHandler e args w = (None, w') \<and>
               files w' = files w \<and> stdout w' = stdout w))"
proof -
  have w1: "files w1 = files w" "stdout w1 = stdout w"
    using assms(3) by (auto simp: fetchSchemaWithIntrospection_def Let_def)
  have g: "generateHandler e args w = (None, emitNodes True nodes w1)"
    using assms by (simp add: generateHandler_def)
  have a: "\<exists>w'. generateHandler e args w = (None, w') \<and>
               files w' = files w ++ map_of (rev (writtenPairs nodes)) \<and>
               stdout w' = stdout w @ writtenLog nodes \<and>
               (\<forall>n \<in> set nodes. \<exists>n' \<in> set nodes. fileName n' = fileName n \<and>
                   files w' (fileName n) = Some (node_code n')) \<and>
               (distinct (map fileName nodes) \<longrightarrow>
                  (\<forall>n \<in> set nodes. files w' (fileName n) = Some (node_code n)))"
    if s: "\<forall>n \<in> set nodes. files w (fileName n) = None"
  proof -
    let ?w' = "emitNodes True nodes w1"
    have e: "?w' = w1\<lparr>files := files w1 ++ map_of (rev (writtenPairs nodes)),
                      stdout := stdout w1 @ writtenLog nodes\<rparr>"
      using s w1(1) by (intro emitNodes_safe) simp
    have f: "files ?w' = files w ++ map_of (rev (writtenPairs nodes))"
      unfolding e using w1 by simp
    have o: "stdout ?w' = stdout w @ writtenLog nodes"
      unfolding e using w1 by simp
    have x: "\<forall>n \<in> set nodes. \<exists>n' \<in> set nodes. fileName n' = fileName n \<and>
                   files ?w' (fileName n) = Some (node_code n')"
      unfolding f using written_some by blast
    have y: "distinct (map fileName nodes) \<longrightarrow>
                  (\<forall>n \<in> set nodes. files ?w' (fileName n) = Some (node_code n))"
      unfolding f using written_distinct by blast
    show ?thesis
      by (intro exI [of _ ?w'] conjI) (rule g f o x y)+
  qed
  have b: "\<exists>w'. generateHandler e args w = (None, w') \<and> files w' = files w \<and> stdout w' = stdout w"
    if c: "\<exists>n \<in> set nodes. files w (fileName n) \<noteq> None"
  proof -
    have "emitNodes True nodes w1 = w1"
      using c w1(1) by (intro emitNodes_conflict) simp
    then show ?thesis using g w1 by simp
  qed
  from a b show ?thesis by blast
qed

theorem write_mode_all_or_nothing_witness:
  "argv_write exampleArgs \<and> argv_operations exampleArgs \<noteq> [] \<and>
   fst (generateHandler exampleEnv exampleArgs emptyWorld) = None \<and>
   dom (files (snd (generateHandler exampleEnv exampleArgs emptyWorld))) = {''NowQuery.ts'', ''FooQuery.ts''} \<and>
   stdout (snd (generateHandler exampleEnv exampleArgs emptyWorld)) =
     [''Written to NowQuery.ts'' @ newline, ''Written to FooQuery.ts'' @ newline] \<and>
   fst (generateHandler exampleEnv exampleArgs conflictWorld) = None \<and>
   files (snd (generateHandler exampleEnv exampleArgs conflictWorld)) = [''FooQuery.ts'' \<mapsto> ''// kept''] \<and>
   stdout (snd (generateHandler exampleEnv exampleArgs conflictWorld)) = []"
proof -
  have a: "argv_write exampleArgs" "argv_operations exampleArgs \<noteq> []"
    by (simp_all add: exampleArgs_def)
  have safe: "\<forall>n \<in> set exampleNodes. files emptyWorld (fileName n) = None"
    by (simp add: emptyWorld_def)
  have conflict: "\<exists>n \<in> set exampleNodes. files conflictWorld (fileName n) \<noteq> None"
    by (simp add: conflictWorld_def exampleNodes_def)
  from write_mode_all_or_nothing [OF a example_fetch exampleSchema_info example_nodes, of emptyWorld] safe
  obtain w' where w': "generateHandler exampleEnv exampleArgs emptyWorld = (None, w')"
    "files w' = files emptyWorld ++ map_of (rev (writtenPairs exampleNodes))"
    "stdout w' = stdout emptyWorld @ writtenLog exampleNodes"
    by blast
  from write_mode_all_or_nothing [OF a example_fetch exampleSchema_info example_nodes, of conflictWorld] conflict
  obtain w'' where w'': "generateHandler exampleEnv exampleArgs conflictWorld = (None, w'')"
    "files w'' = files conflictWorld" "stdout w'' = stdout conflictWorld"
    by blast
  have d: "dom (files w') = {''NowQuery.ts'', ''FooQuery.ts''}"
    unfolding w'(2) by (auto simp: emptyWorld_def writtenPairs_def exampleNodes_def)
  have o: "stdout w' = [''Written to NowQuery.ts'' @ newline, ''Written to FooQuery.ts'' @ newline]"
    unfolding w'(3) by (simp add: emptyWorld_def writtenLog_def exampleNodes_def newline_def)
  have c: "files w'' = [''FooQuery.ts'' \<mapsto> ''// kept'']" "stdout w'' = []"
    unfolding w''(2,3) by (simp_all add: conflictWorld_def)
  show ?thesis
    unfolding w'(1) w''(1) fst_conv snd_conv
    using a d o c by (intro conjI) simp_all
qed

text \<open>
  C4. For a document in which every Query or Mutation definition carries a field array
  (as every parsed document does), the catalog builder returns; the operations are the
  descriptors of the fields of the root definitions, in document order, with the kind of
  their root; neither root name is a key of the catalog; the keys of the catalog are
  exactly the names of the other object-type definitions; and the value under a name is
  the field list of the last definition of that name, empty if it declares none.
\<close>

theorem findOperationsAndTypes_classifies:
  assumes "list_all rootHasFields schema"
  shows "\<exists>info. findOperationsAndTypes schema = Inr info \<and>
           operations info = concat (map descriptorsOf schema) \<and>
           ''Query'' \<notin> dom (types info) \<and> ''Mutation'' \<notin> dom (types info) \<and>
           dom (types info) =
             {nm. \<not> isRootName nm \<and> (\<exists>flds. ObjectTypeDefinition nm flds \<in> set schema)} \<and>
           (\<forall>before nm flds after.
              schema = before @ ObjectTypeDefinition nm flds # after \<and> \<not> isRootName nm \<and>
              (\<forall>flds'. ObjectTypeDefinition nm flds' \<notin> set after) \<longrightarrow>
              types info nm = Some (fieldsOrEmpty flds))"
proof -
  let ?info = "\<lparr>operations = concat (map descriptorsOf schema),
                types = map_of (rev (concat (map catalogEntry schema)))\<rparr>"
  have f: "findOperationsAndTypes schema = Inr ?info"
    using assms by (simp add: findOperationsAndTypes_char)
  have d: "dom (types ?info) =
      {nm. \<not> isRootName nm \<and> (\<exists>flds. ObjectTypeDefinition nm flds \<in> set schema)}"
    using catalog_dom [of schema] by simp
  have q: "''Query'' \<notin> dom (types ?info)" "''Mutation'' \<notin> dom (types ?info)"
    unfolding d by (simp_all add: isRootName_def)
  have l: "\<forall>before nm flds after.
              schema = before @ ObjectTypeDefinition nm flds # after \<and> \<not> isRootName nm \<and>
              (\<forall>flds'. ObjectTypeDefinition nm flds' \<notin> set after) \<longrightarrow>
              types ?info nm = Some (fieldsOrEmpty flds)"
  proof (intro allI impI)
    fix before nm flds after
    assume h: "schema = before @ ObjectTypeDefinition nm flds # after \<and> \<not> isRootName nm \<and>
              (\<forall>flds'. ObjectTypeDefinition nm flds' \<notin> set after)"
    have "map_of (rev (concat (map catalogEntry (before @ ObjectTypeDefinition nm flds # after)))) nm
           = Some (fieldsOrEmpty flds)"
      using h by (intro catalog_last_wins) simp_all
    then show "types ?info nm = Some (fieldsOrEmpty flds)"
      using h by simp
  qed
  show ?thesis
  proof (intro exI [of _ ?info] conjI)
    show "findOperationsAndTypes schema = Inr ?info" by (rule f)
    show "operations ?info = concat (map descriptorsOf schema)" by simp
    show "''Query'' \<notin> dom (types ?info)" by (rule q(1))
    show "''Mutation'' \<notin> dom (types ?info)" by (rule q(2))
    show "dom (types ?info) =
      {nm. \<not> isRootName nm \<and> (\<exists>flds. ObjectTypeDefinition nm flds \<in> set schema)}" by (rule d)
    show "\<forall>before nm flds after.
              schema = before @ ObjectTypeDefinition nm flds # after \<and> \<not> isRootName nm \<and>
              (\<forall>flds'. ObjectTypeDefinition nm flds' \<notin> set after) \<longrightarrow>
              types ?info nm = Some (fieldsOrEmpty flds)" by (rule l)
  qed
qed

theorem findOperationsAndTypes_classifies_witness:
  "list_all rootHasFields exampleSchema \<and>
   (\<exists>info. findOperationsAndTypes exampleSchema = Inr info \<and>
      map name (operations info) = [''now'', ''foo''] \<and>
      map kind (operations info) = [''query'', ''query''] \<and>
      dom (types info) = {''Foo'', ''Bar'', ''Marker''} \<and>
      types info ''Marker'' = Some [])"
proof -
  have h: "list_all rootHasFields exampleSchema"
    by (simp add: exampleSchema_def isRootName_def)
  from findOperationsAndTypes_classifies [OF h]
  obtain info where i0: "findOperationsAndTypes exampleSchema = Inr info \<and>
           operations info = concat (map descriptorsOf exampleSchema) \<and>
           ''Query'' \<notin> dom (types info) \<and> ''Mutation'' \<notin> dom (types info) \<and>
           dom (types info) =
             {nm. \<not> isRootName nm \<and> (\<exists>flds. ObjectTypeDefinition nm flds \<in> set exampleSchema)} \<and>
           (\<forall>before nm flds after.
              exampleSchema = before @ ObjectTypeDefinition nm flds # after \<and> \<not> isRootName nm \<and>
              (\<forall>flds'. ObjectTypeDefinition nm flds' \<notin> set after) \<longrightarrow>
              types info nm = Some (fieldsOrEmpty flds))"
    by (rule exE)
  note i1 = i0 [THEN conjunct1]
  note i2 = i0 [THEN conjunct2, THEN conjunct1]
  note i3 = i0 [THEN conjunct2, THEN conjunct2, THEN conjunct2, THEN conjunct2, THEN conjunct1]
  note i4 = i0 [THEN conjunct2, THEN conjunct2, THEN conjunct2, THEN conjunct2, THEN conjunct2]
  have o1: "map name (operations info) = [''now'', ''foo'']"
    unfolding i2
    by (simp add: exampleSchema_def isRootName_def kindOfRoot_def descriptor_def
        fieldsOrEmpty_def nowField_def fooField_def)
  have o2: "map kind (operations info) = [''query'', ''query'']"
    unfolding i2
    by (simp add: exampleSchema_def isRootName_def kindOfRoot_def descriptor_def
        fieldsOrEmpty_def nowField_def fooField_def)
  have d: "dom (types info) = {''Foo'', ''Bar'', ''Marker''}"
    unfolding i3 by (auto simp: exampleSchema_def isRootName_def)
  have "types info ''Marker'' = Some (fieldsOrEmpty None)"
    by (rule i4 [rule_format, of "butlast exampleSchema" "''Marker''" None "[]"])
       (simp add: exampleSchema_def isRootName_def)
  then have m: "types info ''Marker'' = Some []"
    by (simp add: fieldsOrEmpty_def)
  show ?thesis
    by (intro conjI exI [of _ info]) (rule h i1 o1 o2 d m)+
qed

text \<open>
  C5. For an operation with N arguments, the list of variable declarations and the list
  of argument bindings have N entries each; entry i of the first is
  \<^verbatim>\<open>$name: Type\<close> and entry i of the second is \<^verbatim>\<open>name: $name\<close> for the name
  and type of argument i, so every bound variable is declared at the same position. When
  N is positive the two lists are pushed, comma-joined and in parentheses, after the
  header and after the root field; when N is zero neither is pushed.
\<close>

theorem argument_lists_agree:
  "length (variableDeclarations (argumentsOf operation)) = length (argumentsOf operation) \<and>
   length (argumentBindings (argumentsOf operation)) = length (argumentsOf operation) \<and>
   (\<forall>i < length (argumentsOf operation).
      variableDeclarations (argumentsOf operation) ! i =
        ''$'' @ arg_name (argumentsOf operation ! i) @ '': '' @
        getTypeName (arg_type (argumentsOf operation ! i)) True \<and>
      argumentBindings (argumentsOf operation) ! i =
        arg_name (argumentsOf operation ! i) @ '': $'' @ arg_name (argumentsOf operation ! i)) \<and>
   (argumentsOf operation \<noteq> [] \<longrightarrow>
      codeLines operation tys m =
        [''import gql from \"graphql-tag\";'', '''', ''export default gql`'',
         kind operation @ '' '' @ upperFirst (name operation),
         ''('', join '','' (variableDeclarations (argumentsOf operation)), '')'',
         ''{'', name operation,
         ''('', join '','' (argumentBindings (argumentsOf operation)), '')''] @
        selectionOf tys m operation @ [''}'', ''`'', '''']) \<and>
   (argumentsOf operation = [] \<longrightarrow>
      codeLines operation tys m =
        [''import gql from \"graphql-tag\";'', '''', ''export default gql`'',
         kind operation @ '' '' @ upperFirst (name operation),
         ''{'', name operation] @
        selectionOf tys m operation @ [''}'', ''`'', ''''])"
proof (intro conjI impI allI)
  show "length (variableDeclarations (argumentsOf operation)) = length (argumentsOf operation)"
    by (simp add: variableDeclarations_def)
  show "length (argumentBindings (argumentsOf operation)) = length (argumentsOf operation)"
    by (simp add: argumentBindings_def)
next
  fix i assume "i < length (argumentsOf operation)"
  then show "variableDeclarations (argumentsOf operation) ! i =
        ''$'' @ arg_name (argumentsOf operation ! i) @ '': '' @
        getTypeName (arg_type (argumentsOf operation ! i)) True"
    by (simp add: variableDeclarations_def)
next
  fix i assume "i < length (argumentsOf operation)"
  then show "argumentBindings (argumentsOf operation) ! i =
        arg_name (argumentsOf operation ! i) @ '': $'' @ arg_name (argumentsOf operation ! i)"
    by (simp add: argumentBindings_def)
next
  assume "argumentsOf operation \<noteq> []"
  then have "hasArguments operation"
    by (auto simp: hasArguments_def argumentsOf_def split: option.splits)
  then show "codeLines operation tys m =
        [''import gql from \"graphql-tag\";'', '''', ''export default gql`'',
         kind operation @ '' '' @ upperFirst (name operation),
         ''('', join '','' (variableDeclarations (argumentsOf operation)), '')'',
         ''{'', name operation,
         ''('', join '','' (argumentBindings (argumentsOf operation)), '')''] @
        selectionOf tys m operation @ [''}'', ''`'', '''']"
    by (simp add: codeLines_unfold operationHead_def selectionOf_def)
next
  assume "argumentsOf operation = []"
  then have "\<not> hasArguments operation"
    by (auto simp: hasArguments_def argumentsOf_def split: option.splits)
  then show "codeLines operation tys m =
        [''import gql from \"graphql-tag\";'', '''', ''export default gql`'',
         kind operation @ '' '' @ upperFirst (name operation),
         ''{'', name operation] @
        selectionOf tys m operation @ [''}'', ''`'', '''']"
    by (simp add: codeLines_unfold operationHead_def selectionOf_def)
qed

theorem argument_lists_agree_witness:
  "variableDeclarations (argumentsOf fooOperation) = [''$id: ID!'', ''$tags: [String!]''] \<and>
   argumentBindings (argumentsOf fooOperation) = [''id: $id'', ''tags: $tags''] \<and>
   codeLines fooOperation exampleCatalog 2 =
     [''import gql from \"graphql-tag\";'', '''', ''export default gql`'', ''query Foo'',
      ''('', ''$id: ID!,$tags: [String!]'', '')'', ''{'', ''foo'',
      ''('', ''id: $id,tags: $tags'', '')'',
      ''{'', ''id'', ''bar'', ''{'', ''baz'', ''}'', ''}'', ''}'', ''`'', '''']"
proof -
  note t = argument_lists_agree [of fooOperation exampleCatalog 2]
  have d: "variableDeclarations (argumentsOf fooOperation) = [''$id: ID!'', ''$tags: [String!]'']"
    by (simp add: foo_arguments variableDeclarations_def)
  have b: "argumentBindings (argumentsOf fooOperation) = [''id: $id'', ''tags: $tags'']"
    by (simp add: foo_arguments argumentBindings_def)
  have n: "argumentsOf fooOperation \<noteq> []"
    by (simp add: foo_arguments)
  have "codeLines fooOperation exampleCatalog 2 =
        [''import gql from \"graphql-tag\";'', '''', ''export default gql`'',
         kind fooOperation @ '' '' @ upperFirst (name fooOperation),
         ''('', join '','' (variableDeclarations (argumentsOf fooOperation)), '')'',
         ''{'', name fooOperation,
         ''('', join '','' (argumentBindings (argumentsOf fooOperation)), '')''] @
        selectionOf exampleCatalog 2 fooOperation @ [''}'', ''`'', '''']"
    using t n by blast
  then have c: "codeLines fooOperation exampleCatalog 2 =
     [''import gql from \"graphql-tag\";'', '''', ''export default gql`'', ''query Foo'',
      ''('', ''$id: ID!,$tags: [String!]'', '')'', ''{'', ''foo'',
      ''('', ''id: $id,tags: $tags'', '')'',
      ''{'', ''id'', ''bar'', ''{'', ''baz'', ''}'', ''}'', ''}'', ''`'', '''']"
    unfolding d b foo_selection
    by (simp add: fooOperation_def descriptor_def fooField_def toUpperCase_def)
  from d b c show ?thesis by (intro conjI)
qed

text \<open>
  C6 as claimed: for a variable declaration the helper would strip the non-null mark
  around the innermost layer. It does not: \<^verbatim>\<open>[ID!]\<close> is rendered \<^verbatim>\<open>[ID!]\<close>, not
  \<^verbatim>\<open>[ID]\<close>.
\<close>

theorem getTypeName_keeps_innermost_NonNull:
  "getTypeName (ListType (NonNullType (NamedType ''ID''))) True = ''[ID!]'' \<and>
   renderStrippingInnermostNonNull (ListType (NonNullType (NamedType ''ID''))) = ''[ID]'' \<and>
   getTypeName (ListType (NonNullType (NamedType ''ID''))) True
     \<noteq> renderStrippingInnermostNonNull (ListType (NonNullType (NamedType ''ID'')))"
  by simp

text \<open>
  C6, amended. Every type reference is a named type under a list of wrappers. Resolved
  to a bare name, it gives the name, whatever the wrappers. Resolved for a variable
  declaration, it gives the name with the syntax of every wrapper around it, the
  innermost included: an opening bracket for each list wrapper before the name, and
  after it a closing bracket for each list wrapper and an exclamation mark for each
  non-null wrapper, from the innermost outwards.
\<close>

theorem getTypeName_wrappers:
  "\<exists>ws n. t = wrap ws (NamedType n) \<and> getTypeName t False = n \<and>
     getTypeName t True = concat (map openingOf ws) @ n @ concat (map closingOf (rev ws))"
proof (induction t)
  case (NamedType n)
  have "NamedType n = wrap [] (NamedType n)" by simp
  then show ?case by fastforce
next
  case (ListType t)
  then obtain ws n where h: "t = wrap ws (NamedType n)" "getTypeName t False = n"
    "getTypeName t True = concat (map openingOf ws) @ n @ concat (map closingOf (rev ws))" by blast
  have "ListType t = wrap (ListWrapper # ws) (NamedType n)" using h by simp
  moreover have "getTypeName (ListType t) True =
      concat (map openingOf (ListWrapper # ws)) @ n @ concat (map closingOf (rev (ListWrapper # ws)))"
    using h by simp
  moreover have "getTypeName (ListType t) False = n" using h by simp
  ultimately show ?case by blast
next
  case (NonNullType t)
  then obtain ws n where h: "t = wrap ws (NamedType n)" "getTypeName t False = n"
    "getTypeName t True = concat (map openingOf ws) @ n @ concat (map closingOf (rev ws))" by blast
  have "NonNullType t = wrap (NonNullWrapper # ws) (NamedType n)" using h by simp
  moreover have "getTypeName (NonNullType t) True =
      concat (map openingOf (NonNullWrapper # ws)) @ n @ concat (map closingOf (rev (NonNullWrapper # ws)))"
    using h by simp
  moreover have "getTypeName (NonNullType t) False = n" using h by simp
  ultimately show ?case by blast
qed

text \<open>
  C7. Let Query declare a field without arguments whose bare type is not a key of the
  catalog. Then the field is an operation of kind query, and the lines generated for it
  are the import line, an empty line, the opening of the template, the header
  \<^verbatim>\<open>query\<close> followed by the name with its first letter in upper case, an opening
  brace, the field name, a closing brace, and the closing of the template: no variable
  list and no nested block. The formatter receives these lines joined by newlines.
\<close>

theorem scalar_root_field_document:
  assumes "findOperationsAndTypes schema = Inr info"
    and "ObjectTypeDefinition ''Query'' (Some fs) \<in> set schema"
    and "f \<in> set fs"
    and "field_arguments f = None \<or> field_arguments f = Some []"
    and "types info (bareType f) = None"
  shows "descriptor ''query'' f \<in> set (operations info) \<and>
         codeLines (descriptor ''query'' f) (types info) m =
           [''import gql from \"graphql-tag\";'', '''', ''export default gql`'',
            ''query '' @ upperFirst (field_name f), ''{'', field_name f, ''}'', ''`'', ''''] \<and>
         generateCodeForOperation fmt (descriptor ''query'' f) (types info) m =
           fmt (''import gql from \"graphql-tag\";'' @ newline @ newline @
                ''export default gql`'' @ newline @
                ''query '' @ upperFirst (field_name f) @ newline @
                ''{'' @ newline @ field_name f @ newline @ ''}'' @ newline @ ''`'' @ newline)"
proof -
  have r: "isRootName ''Query''" "kindOfRoot ''Query'' = ''query''"
    by (simp_all add: isRootName_def kindOfRoot_def)
  have a: "descriptor ''query'' f \<in> set (operations info)"
    using descriptor_in_operations [OF assms(1,2) r(1) assms(3)] r(2) by simp
  have n: "\<not> hasArguments (descriptor ''query'' f)"
    using assms(4) by (auto simp: hasArguments_def descriptor_def)
  have c: "codeLines (descriptor ''query'' f) (types info) m =
           [''import gql from \"graphql-tag\";'', '''', ''export default gql`'',
            ''query '' @ upperFirst (field_name f), ''{'', field_name f, ''}'', ''`'', '''']"
    using n assms(5) by (simp add: codeLines_unfold operationHead_def descriptor_def)
  have g: "generateCodeForOperation fmt (descriptor ''query'' f) (types info) m =
           fmt (''import gql from \"graphql-tag\";'' @ newline @ newline @
                ''export default gql`'' @ newline @
                ''query '' @ upperFirst (field_name f) @ newline @
                ''{'' @ newline @ field_name f @ newline @ ''}'' @ newline @ ''`'' @ newline)"
    unfolding generateCodeForOperation_def c by (simp add: newline_def)
  from a c g show ?thesis by (intro conjI)
qed

theorem scalar_root_field_document_witness:
  "findOperationsAndTypes exampleSchema = Inr exampleInfo \<and>
   descriptor ''query'' nowField \<in> set (operations exampleInfo) \<and>
   codeLines (descriptor ''query'' nowField) (types exampleInfo) 2 =
     [''import gql from \"graphql-tag\";'', '''', ''export default gql`'', ''query Now'',
      ''{'', ''now'', ''}'', ''`'', '''']"
proof -
  have s: "ObjectTypeDefinition ''Query'' (Some [nowField, fooField]) \<in> set exampleSchema"
    by (simp add: exampleSchema_def fooField_def)
  have f: "nowField \<in> set [nowField, fooField]" by simp
  have a: "field_arguments nowField = None \<or> field_arguments nowField = Some []"
    by (simp add: nowField_def)
  have t: "types exampleInfo (bareType nowField) = None"
    by (simp add: exampleInfo_def exampleCatalog_def bareType_def nowField_def)
  note r = scalar_root_field_document [OF exampleSchema_info s f a t, of 2 Inr]
  have "codeLines (descriptor ''query'' nowField) (types exampleInfo) 2 =
     [''import gql from \"graphql-tag\";'', '''', ''export default gql`'',
      ''query '' @ upperFirst (field_name nowField), ''{'', field_name nowField, ''}'', ''`'', '''']"
    using r by blast
  then have "codeLines (descriptor ''query'' nowField) (types exampleInfo) 2 =
     [''import gql from \"graphql-tag\";'', '''', ''export default gql`'', ''query Now'',
      ''{'', ''now'', ''}'', ''`'', '''']"
    by (simp add: nowField_def toUpperCase_def)
  moreover have "descriptor ''query'' nowField \<in> set (operations exampleInfo)"
    using r by blast
  ultimately show ?thesis using exampleSchema_info by (intro conjI)
qed

text \<open>
  C8. With no operation name requested, the handler of \<^verbatim>\<open>generate\<close> returns without
  an exception and leaves the world as it found it: no request sent, nothing printed, no
  file written.
\<close>

theorem generate_nothing_requested:
  "argv_operations args = [] \<Longrightarrow> generateHandler e args w = (None, w)"
  by (simp add: generateHandler_def)

theorem generate_nothing_requested_witness:
  "argv_operations \<lparr>argv_url = ''http://localhost:4000/graphql'', argv_type = ''query'',
                     argv_operations = [], argv_write = True\<rparr> = [] \<and>
   generateHandler exampleEnv
     \<lparr>argv_url = ''http://localhost:4000/graphql'', argv_type = ''query'',
       argv_operations = [], argv_write = True\<rparr> emptyWorld = (None, emptyWorld) \<and>
   requests emptyWorld = [] \<and> stdout emptyWorld = [] \<and> files emptyWorld = Map.empty"
  using generate_nothing_requested
    [of "\<lparr>argv_url = ''http://localhost:4000/graphql'', argv_type = ''query'',
           argv_operations = [], argv_write = True\<rparr>" exampleEnv emptyWorld]
  by (simp add: emptyWorld_def)

text \<open>
  C9. When the bare return type of an operation is a key of the catalog, the block of the
  root sub-selection is opened and closed around the selection of its fields, whatever
  they are. When the type has no field, an opening brace is directly followed by a
  closing brace, in the lines and in the text handed to the formatter.
\<close>

theorem empty_type_opens_block:
  "(tys (bareType (astValue operation)) = Some items \<longrightarrow>
      codeLines operation tys m =
        operationHead operation @ [''{''] @
        concat (map (\<lambda>field. selectFields tys m field [] 0) items) @ [''}'', ''}'', ''`'', '''']) \<and>
   (tys (bareType (astValue operation)) = Some [] \<longrightarrow>
      codeLines operation tys m = operationHead operation @ [''{'', ''}'', ''}'', ''`'', ''''] \<and>
      join newline (codeLines operation tys m) =
        join newline (operationHead operation) @ newline @ ''{'' @ newline @ ''}'' @ newline @
        ''}'' @ newline @ ''`'' @ newline)"
proof (intro conjI impI)
  assume "tys (bareType (astValue operation)) = Some items"
  then show "codeLines operation tys m =
        operationHead operation @ [''{''] @
        concat (map (\<lambda>field. selectFields tys m field [] 0) items) @ [''}'', ''}'', ''`'', '''']"
    by (simp add: codeLines_unfold)
next
  assume "tys (bareType (astValue operation)) = Some []"
  then show c: "codeLines operation tys m = operationHead operation @ [''{'', ''}'', ''}'', ''`'', '''']"
    by (simp add: codeLines_unfold)
  have "join newline (operationHead operation @ [''{'', ''}'', ''}'', ''`'', '''']) =
        join newline (operationHead operation) @ newline @ join newline [''{'', ''}'', ''}'', ''`'', '''']"
    by (rule join_append) (simp_all add: operationHead_nonempty)
  then show "join newline (codeLines operation tys m) =
        join newline (operationHead operation) @ newline @ ''{'' @ newline @ ''}'' @ newline @
        ''}'' @ newline @ ''`'' @ newline"
    unfolding c by simp
qed

theorem empty_type_opens_block_witness:
  "exampleCatalog (bareType (astValue markerOperation)) = Some [] \<and>
   codeLines markerOperation exampleCatalog 2 =
     [''import gql from \"graphql-tag\";'', '''', ''export default gql`'', ''query Marker'',
      ''{'', ''marker'', ''{'', ''}'', ''}'', ''`'', '''']"
proof -
  have h: "exampleCatalog (bareType (astValue markerOperation)) = Some []"
    by (simp add: exampleCatalog_def bareType_def markerOperation_def)
  have o: "operationHead markerOperation =
      [''import gql from \"graphql-tag\";'', '''', ''export default gql`'', ''query Marker'',
       ''{'', ''marker'']"
    by (simp add: operationHead_def markerOperation_def hasArguments_def toUpperCase_def)
  have "codeLines markerOperation exampleCatalog 2 =
      operationHead markerOperation @ [''{'', ''}'', ''}'', ''`'', '''']"
    using empty_type_opens_block [of exampleCatalog markerOperation "[]" 2] h by blast
  with h o show ?thesis by simp
qed

text \<open>
  C10. Two definitions of the same root anywhere in the document both contribute: the
  operations are the descriptors of what precedes, of the first definition, of what lies
  between, of the second, and of what follows, in this order. A field name declared by
  both therefore matches at least two descriptors of that kind.
\<close>

theorem duplicate_roots_accumulate:
  assumes "findOperationsAndTypes
             (before @ ObjectTypeDefinition r (Some fs1) # between @ ObjectTypeDefinition r (Some fs2) # after)
           = Inr info"
    and "isRootName r"
  shows "operations info =
           concat (map descriptorsOf before) @ map (descriptor (kindOfRoot r)) fs1 @
           concat (map descriptorsOf between) @ map (descriptor (kindOfRoot r)) fs2 @
           concat (map descriptorsOf after) \<and>
         (\<forall>f1 \<in> set fs1. \<forall>f2 \<in> set fs2. field_name f1 = field_name f2 \<longrightarrow>
            2 \<le> length (filter (\<lambda>operation. kind operation = kindOfRoot r \<and>
                                    name operation = field_name f1) (operations info)))"
proof -
  let ?schema = "before @ ObjectTypeDefinition r (Some fs1) # between @ ObjectTypeDefinition r (Some fs2) # after"
  have "list_all rootHasFields ?schema"
    using assms(1) by (auto simp: findOperationsAndTypes_char split: if_splits)
  then have "info = \<lparr>operations = concat (map descriptorsOf ?schema),
                      types = map_of (rev (concat (map catalogEntry ?schema)))\<rparr>"
    using assms(1) by (simp add: findOperationsAndTypes_char)
  then have o: "operations info =
           concat (map descriptorsOf before) @ map (descriptor (kindOfRoot r)) fs1 @
           concat (map descriptorsOf between) @ map (descriptor (kindOfRoot r)) fs2 @
           concat (map descriptorsOf after)"
    using assms(2) by (simp add: fieldsOrEmpty_def)
  have c: "1 \<le> length (filter (\<lambda>operation. kind operation = k \<and> name operation = field_name f)
                          (map (descriptor k) fs))"
    if "f' \<in> set fs" "field_name f' = field_name f" for f :: fieldDefinition and f' k fs
  proof -
    have m: "descriptor k f' \<in> set (map (descriptor k) fs)"
      using that(1) by simp
    have p: "kind (descriptor k f') = k \<and> name (descriptor k f') = field_name f"
      using that(2) by (simp add: descriptor_def)
    from m p have "descriptor k f' \<in> set (filter (\<lambda>operation. kind operation = k \<and> name operation = field_name f)
                          (map (descriptor k) fs))"
      by simp
    then show ?thesis by (rule member_length)
  qed
  have "2 \<le> length (filter (\<lambda>operation. kind operation = kindOfRoot r \<and>
                                    name operation = field_name f1) (operations info))"
    if "f1 \<in> set fs1" "f2 \<in> set fs2" "field_name f1 = field_name f2" for f1 f2
    using c [of f1 fs1 f1 "kindOfRoot r"] c [of f2 fs2 f1 "kindOfRoot r"] that
    unfolding o by simp
  then show ?thesis using o by blast
qed

theorem duplicate_roots_accumulate_witness:
  "findOperationsAndTypes
     [ObjectTypeDefinition ''Query'' (Some [nowField]), ObjectTypeDefinition ''Query'' (Some [nowField])]
     = Inr \<lparr>operations = [descriptor ''query'' nowField, descriptor ''query'' nowField],
             types = Map.empty\<rparr> \<and>
   isRootName ''Query'' \<and>
   2 \<le> length (filter (\<lambda>operation. kind operation = ''query'' \<and> name operation = ''now'')
                  [descriptor ''query'' nowField, descriptor ''query'' nowField])"
proof -
  let ?info = "\<lparr>operations = [descriptor ''query'' nowField, descriptor ''query'' nowField],
                types = Map.empty\<rparr>"
  have f: "findOperationsAndTypes
     ([] @ ObjectTypeDefinition ''Query'' (Some [nowField]) # [] @
        ObjectTypeDefinition ''Query'' (Some [nowField]) # []) = Inr ?info"
    by (simp add: findOperationsAndTypes_def enterObjectTypeDefinition_def descriptor_def)
  have r: "isRootName ''Query''"
    by (simp add: isRootName_def)
  have "2 \<le> length (filter (\<lambda>operation. kind operation = kindOfRoot ''Query'' \<and>
                                name operation = field_name nowField) (operations ?info))"
    by (rule duplicate_roots_accumulate [OF f r, THEN conjunct2, rule_format, of nowField nowField])
       simp_all
  then have "2 \<le> length (filter (\<lambda>operation. kind operation = ''query'' \<and> name operation = ''now'')
                  [descriptor ''query'' nowField, descriptor ''query'' nowField])"
    by (simp add: kindOfRoot_def nowField_def)
  with f r show ?thesis by simp
qed

end
